theory Spec2Isabelle
  imports Main "HOL-Library.Word"
begin

section \<open>Data model of the chain configuration (package params)\<close>

text \<open>
  A Go \<open>*big.Int\<close> is an optional unbounded integer: \<open>None\<close> is the nil pointer.
  A \<open>uint64\<close> is a \<open>64 word\<close>. The receiver and argument configurations are
  taken to be non-nil pointers, so a configuration is a plain record.
\<close>

type_synonym bigInt = "int option"

record ChainConfig =
  ChainID :: bigInt
  HomesteadBlock :: bigInt
  DAOForkBlock :: bigInt
  DAOForkSupport :: bool
  EIP150Block :: bigInt
  EIP150Hash :: "256 word"
  EIP155Block :: bigInt
  EIP158Block :: bigInt
  ByzantiumBlock :: bigInt
  ConstantinopleBlock :: bigInt
  PetersburgBlock :: bigInt
  IstanbulBlock :: bigInt
  MuirGlacierBlock :: bigInt
  ApricotPhase1BlockTimestamp :: bigInt
  ApricotPhase2BlockTimestamp :: bigInt
  ApricotPhase3BlockTimestamp :: bigInt
  ApricotPhase4BlockTimestamp :: bigInt

record ConfigCompatError =
  What :: string
  StoredConfig :: bigInt
  NewConfig :: bigInt
  RewindTo :: "64 word"

text \<open>The local struct \<open>fork\<close> of \<open>CheckConfigForkOrder\<close>.\<close>

record fork =
  name :: string
  block :: bigInt
  optional :: bool

text \<open>
  The errors of \<open>CheckConfigForkOrder\<close>: the package-level sentinel and the two
  formatted messages, kept with the values that are formatted into them.
\<close>

datatype error =
    errNonGenesisForkByHeight
  | errNotEnabledButEnabled string string int
  | errEnabledButEnabled string int string int

text \<open>The presets \<open>TestChainConfig\<close>, \<open>TestLaunchConfig\<close> and
  \<open>TestApricotPhase1Config\<close>.\<close>

definition TestChainConfig :: ChainConfig where
  "TestChainConfig = \<lparr>ChainID = Some 1, HomesteadBlock = Some 0, DAOForkBlock = None,
     DAOForkSupport = False, EIP150Block = Some 0, EIP150Hash = 0, EIP155Block = Some 0,
     EIP158Block = Some 0, ByzantiumBlock = Some 0, ConstantinopleBlock = Some 0,
     PetersburgBlock = Some 0, IstanbulBlock = Some 0, MuirGlacierBlock = Some 0,
     ApricotPhase1BlockTimestamp = Some 0, ApricotPhase2BlockTimestamp = Some 0,
     ApricotPhase3BlockTimestamp = Some 0, ApricotPhase4BlockTimestamp = Some 0\<rparr>"

definition TestLaunchConfig :: ChainConfig where
  "TestLaunchConfig = \<lparr>ChainID = Some 1, HomesteadBlock = Some 0, DAOForkBlock = None,
     DAOForkSupport = False, EIP150Block = Some 0, EIP150Hash = 0, EIP155Block = Some 0,
     EIP158Block = Some 0, ByzantiumBlock = Some 0, ConstantinopleBlock = Some 0,
     PetersburgBlock = Some 0, IstanbulBlock = Some 0, MuirGlacierBlock = Some 0,
     ApricotPhase1BlockTimestamp = None, ApricotPhase2BlockTimestamp = None,
     ApricotPhase3BlockTimestamp = None, ApricotPhase4BlockTimestamp = None\<rparr>"

definition TestApricotPhase1Config :: ChainConfig where
  "TestApricotPhase1Config = \<lparr>ChainID = Some 1, HomesteadBlock = Some 0, DAOForkBlock = None,
     DAOForkSupport = False, EIP150Block = Some 0, EIP150Hash = 0, EIP155Block = Some 0,
     EIP158Block = Some 0, ByzantiumBlock = Some 0, ConstantinopleBlock = Some 0,
     PetersburgBlock = Some 0, IstanbulBlock = Some 0, MuirGlacierBlock = Some 0,
     ApricotPhase1BlockTimestamp = Some 0, ApricotPhase2BlockTimestamp = None,
     ApricotPhase3BlockTimestamp = None, ApricotPhase4BlockTimestamp = None\<rparr>"

section \<open>Activation predicate and number comparison\<close>

definition isForked :: "bigInt \<Rightarrow> bigInt \<Rightarrow> bool" where
  "isForked s head =
     (if s = None \<or> head = None then False else the s \<le> the head)"

definition configNumEqual :: "bigInt \<Rightarrow> bigInt \<Rightarrow> bool" where
  "configNumEqual x y =
     (if x = None then y = None
      else if y = None then x = None
      else the x = the y)"

definition isForkIncompatible :: "bigInt \<Rightarrow> bigInt \<Rightarrow> bigInt \<Rightarrow> bool" where
  "isForkIncompatible s1 s2 head =
     ((isForked s1 head \<or> isForked s2 head) \<and> \<not> configNumEqual s1 s2)"

definition IsDAOFork :: "ChainConfig \<Rightarrow> bigInt \<Rightarrow> bool" where
  "IsDAOFork c num = isForked (DAOForkBlock c) num"

definition IsEIP158 :: "ChainConfig \<Rightarrow> bigInt \<Rightarrow> bool" where
  "IsEIP158 c num = isForked (EIP158Block c) num"

section \<open>Compatibility checker\<close>

text \<open>
  \<open>newCompatError\<close>: the switch picks \<open>rew\<close>; \<open>rew.Uint64()\<close> of a positive
  \<open>big.Int\<close> is its low 64 bits, and the subtraction is a \<open>uint64\<close> one.
\<close>

definition newCompatError :: "string \<Rightarrow> bigInt \<Rightarrow> bigInt \<Rightarrow> ConfigCompatError" where
  "newCompatError what storedblock newblock =
     (let rew =
            (if storedblock = None then newblock
             else if newblock = None \<or> the storedblock < the newblock then storedblock
             else newblock);
          err = \<lparr>What = what, StoredConfig = storedblock, NewConfig = newblock, RewindTo = 0\<rparr>
      in if rew \<noteq> None \<and> 0 < the rew
         then err\<lparr>RewindTo := word_of_int (the rew) - 1\<rparr>
         else err)"

definition checkCompatible ::
    "ChainConfig \<Rightarrow> ChainConfig \<Rightarrow> bigInt \<Rightarrow> ConfigCompatError option" where
  "checkCompatible c newcfg head =
     (if isForkIncompatible (HomesteadBlock c) (HomesteadBlock newcfg) head then
        Some (newCompatError ''Homestead fork block'' (HomesteadBlock c) (HomesteadBlock newcfg))
      else if isForkIncompatible (DAOForkBlock c) (DAOForkBlock newcfg) head then
        Some (newCompatError ''DAO fork block'' (DAOForkBlock c) (DAOForkBlock newcfg))
      else if IsDAOFork c head \<and> DAOForkSupport c \<noteq> DAOForkSupport newcfg then
        Some (newCompatError ''DAO fork support flag'' (DAOForkBlock c) (DAOForkBlock newcfg))
      else if isForkIncompatible (EIP150Block c) (EIP150Block newcfg) head then
        Some (newCompatError ''EIP150 fork block'' (EIP150Block c) (EIP150Block newcfg))
      else if isForkIncompatible (EIP155Block c) (EIP155Block newcfg) head then
        Some (newCompatError ''EIP155 fork block'' (EIP155Block c) (EIP155Block newcfg))
      else if isForkIncompatible (EIP158Block c) (EIP158Block newcfg) head then
        Some (newCompatError ''EIP158 fork block'' (EIP158Block c) (EIP158Block newcfg))
      else if IsEIP158 c head \<and> \<not> configNumEqual (ChainID c) (ChainID newcfg) then
        Some (newCompatError ''EIP158 chain ID'' (EIP158Block c) (EIP158Block newcfg))
      else if isForkIncompatible (ByzantiumBlock c) (ByzantiumBlock newcfg) head then
        Some (newCompatError ''Byzantium fork block'' (ByzantiumBlock c) (ByzantiumBlock newcfg))
      else if isForkIncompatible (ConstantinopleBlock c) (ConstantinopleBlock newcfg) head then
        Some (newCompatError ''Constantinople fork block''
                (ConstantinopleBlock c) (ConstantinopleBlock newcfg))
      else if isForkIncompatible (PetersburgBlock c) (PetersburgBlock newcfg) head
              \<and> isForkIncompatible (ConstantinopleBlock c) (PetersburgBlock newcfg) head then
        Some (newCompatError ''Petersburg fork block'' (PetersburgBlock c) (PetersburgBlock newcfg))
      else if isForkIncompatible (IstanbulBlock c) (IstanbulBlock newcfg) head then
        Some (newCompatError ''Istanbul fork block'' (IstanbulBlock c) (IstanbulBlock newcfg))
      else if isForkIncompatible (MuirGlacierBlock c) (MuirGlacierBlock newcfg) head then
        Some (newCompatError ''Muir Glacier fork block''
                (MuirGlacierBlock c) (MuirGlacierBlock newcfg))
      else None)"

text \<open>
  The \<open>for\<close> loop of \<open>CheckCompatible\<close>, with its two variables \<open>lasterr\<close> and
  \<open>bhead\<close>. The loop has no bound of its own, so the result is an option:
  \<open>None\<close> stands for a loop that never breaks, \<open>Some r\<close> for the returned
  pointer \<open>r\<close> (itself \<open>None\<close> when nil).
\<close>

partial_function (option) CheckCompatible_loop ::
    "ChainConfig \<Rightarrow> ChainConfig \<Rightarrow> ConfigCompatError option \<Rightarrow> int
       \<Rightarrow> ConfigCompatError option option" where
  "CheckCompatible_loop c newcfg lasterr bhead =
     (case checkCompatible c newcfg (Some bhead) of
        None \<Rightarrow> Some lasterr
      | Some err \<Rightarrow>
          if lasterr \<noteq> None \<and> RewindTo err = RewindTo (the lasterr) then Some lasterr
          else CheckCompatible_loop c newcfg (Some err) (uint (RewindTo err)))"

definition CheckCompatible ::
    "ChainConfig \<Rightarrow> ChainConfig \<Rightarrow> 64 word \<Rightarrow> ConfigCompatError option option" where
  "CheckCompatible c newcfg height = CheckCompatible_loop c newcfg None (uint height)"

section \<open>Fork order validator\<close>

definition heightForks :: "ChainConfig \<Rightarrow> fork list" where
  "heightForks c =
     [\<lparr>name = ''homesteadBlock'', block = HomesteadBlock c, optional = False\<rparr>,
      \<lparr>name = ''daoForkBlock'', block = DAOForkBlock c, optional = True\<rparr>,
      \<lparr>name = ''eip150Block'', block = EIP150Block c, optional = False\<rparr>,
      \<lparr>name = ''eip155Block'', block = EIP155Block c, optional = False\<rparr>,
      \<lparr>name = ''eip158Block'', block = EIP158Block c, optional = False\<rparr>,
      \<lparr>name = ''byzantiumBlock'', block = ByzantiumBlock c, optional = False\<rparr>,
      \<lparr>name = ''constantinopleBlock'', block = ConstantinopleBlock c, optional = False\<rparr>,
      \<lparr>name = ''petersburgBlock'', block = PetersburgBlock c, optional = False\<rparr>,
      \<lparr>name = ''istanbulBlock'', block = IstanbulBlock c, optional = False\<rparr>,
      \<lparr>name = ''muirGlacierBlock'', block = MuirGlacierBlock c, optional = True\<rparr>]"

definition timestampForks :: "ChainConfig \<Rightarrow> fork list" where
  "timestampForks c =
     [\<lparr>name = ''apricotPhase1BlockTimestamp'', block = ApricotPhase1BlockTimestamp c,
        optional = False\<rparr>,
      \<lparr>name = ''apricotPhase2BlockTimestamp'', block = ApricotPhase2BlockTimestamp c,
        optional = False\<rparr>,
      \<lparr>name = ''apricotPhase3BlockTimestamp'', block = ApricotPhase3BlockTimestamp c,
        optional = False\<rparr>,
      \<lparr>name = ''apricotPhase4BlockTimestamp'', block = ApricotPhase4BlockTimestamp c,
        optional = False\<rparr>]"

text \<open>The zero value \<open>fork{}\<close> that \<open>lastFork\<close> starts from in each loop.\<close>

definition zeroFork :: fork where
  "zeroFork = \<lparr>name = [], block = None, optional = False\<rparr>"

text \<open>The first \<open>range\<close> loop (forks by height), an early \<open>return\<close> being \<open>Some\<close>.\<close>

fun heightLoop :: "fork \<Rightarrow> fork list \<Rightarrow> error option" where
  "heightLoop lastFork [] = None"
| "heightLoop lastFork (cur # rest) =
     (if block cur \<noteq> None \<and> 0 \<noteq> the (block cur) then Some errNonGenesisForkByHeight
      else if name lastFork \<noteq> [] \<and> block lastFork = None \<and> block cur \<noteq> None then
        Some (errNotEnabledButEnabled (name lastFork) (name cur) (the (block cur)))
      else if name lastFork \<noteq> [] \<and> block lastFork \<noteq> None \<and> block cur \<noteq> None
              \<and> the (block lastFork) > the (block cur) then
        Some (errEnabledButEnabled (name lastFork) (the (block lastFork))
                (name cur) (the (block cur)))
      else heightLoop (if \<not> optional cur \<or> block cur \<noteq> None then cur else lastFork) rest)"

text \<open>The second \<open>range\<close> loop (Apricot phases by timestamp).\<close>

fun timestampLoop :: "fork \<Rightarrow> fork list \<Rightarrow> error option" where
  "timestampLoop lastFork [] = None"
| "timestampLoop lastFork (cur # rest) =
     (if name lastFork \<noteq> [] \<and> block lastFork = None \<and> block cur \<noteq> None then
        Some (errNotEnabledButEnabled (name lastFork) (name cur) (the (block cur)))
      else if name lastFork \<noteq> [] \<and> block lastFork \<noteq> None \<and> block cur \<noteq> None
              \<and> the (block lastFork) > the (block cur) then
        Some (errEnabledButEnabled (name lastFork) (the (block lastFork))
                (name cur) (the (block cur)))
      else timestampLoop (if \<not> optional cur \<or> block cur \<noteq> None then cur else lastFork) rest)"

definition CheckConfigForkOrder :: "ChainConfig \<Rightarrow> error option" where
  "CheckConfigForkOrder c =
     (case heightLoop zeroFork (heightForks c) of
        Some e \<Rightarrow> Some e
      | None \<Rightarrow> timestampLoop zeroFork (timestampForks c))"

section \<open>The rewind target in the words of the specification\<close>

text \<open>
  The value that governs the rewind as the specification words it: the lower of the
  stored and the new value, an absent stored value leaving the new one, an absent new
  value leaving the stored one. It is compared below with the switch of
  \<open>newCompatError\<close>.
\<close>

definition spec_chosen_value :: "bigInt \<Rightarrow> bigInt \<Rightarrow> bigInt" where
  "spec_chosen_value stored new =
     (case stored of
        None \<Rightarrow> new
      | Some s \<Rightarrow> (case new of None \<Rightarrow> Some s | Some n \<Rightarrow> Some (min s n)))"

section \<open>Order between two forks of a list\<close>

text \<open>
  What the walk establishes between a fork \<open>A\<close> and a later fork \<open>B\<close> of the same
  list: unless \<open>A\<close> is an optional fork left unset, a scheduled \<open>B\<close> has \<open>A\<close>
  scheduled too, at no later point.
\<close>

definition orderedPair :: "fork \<Rightarrow> fork \<Rightarrow> bool" where
  "orderedPair A B =
     (\<not> (optional A \<and> block A = None) \<longrightarrow> block B \<noteq> None \<longrightarrow>
        block A \<noteq> None \<and> the (block A) \<le> the (block B))"

section \<open>Properties of the activation predicate\<close>

lemma isForked_Some [simp]: "isForked (Some a) (Some b) = (a \<le> b)"
  by (simp add: isForked_def)

lemma isForked_None1 [simp]: "isForked None r = False"
  by (simp add: isForked_def)

lemma isForked_None2 [simp]: "isForked s None = False"
  by (simp add: isForked_def)

lemma configNumEqual_iff [simp]: "configNumEqual x y = (x = y)"
  by (cases x; cases y) (simp_all add: configNumEqual_def)

text \<open>
  Claim C4. \<open>isForked s ref\<close> is false when \<open>s\<close> or \<open>ref\<close> is absent, and otherwise
  it is true exactly when the fork value is at most the reference point.
\<close>

theorem isForked_spec:
  "isForked None r = False \<and> isForked s None = False
     \<and> isForked (Some a) (Some b) = (a \<le> b)"
  by (simp add: isForked_def)

section \<open>One pass of the compatibility check\<close>

lemma if_Some_chainE:
  assumes "(if C then Some x else rest) = Some e"
  obtains (hit) "C" "e = x" | (miss) "rest = Some e"
  using assms by (cases C) (simp_all add: hit miss)

lemma isForkIncompatibleD:
  "isForkIncompatible s1 s2 head \<Longrightarrow> isForked s1 head \<or> isForked s2 head"
  by (simp add: isForkIncompatible_def)

lemma isForkIncompatible_same [simp]: "isForkIncompatible s s head = False"
  by (simp add: isForkIncompatible_def)

text \<open>Every error of a pass is built by \<open>newCompatError\<close> from a pair of fork values
  of which one is active at the head.\<close>

lemma checkCompatible_SomeE:
  assumes "checkCompatible c n head = Some err"
  obtains w s1 s2 where "err = newCompatError w s1 s2" "isForked s1 head \<or> isForked s2 head"
  using assms unfolding checkCompatible_def
  apply (elim if_Some_chainE)
  apply (erule that,
      (erule isForkIncompatibleD | simp add: IsDAOFork_def IsEIP158_def isForkIncompatibleD))+
  apply simp
  done

lemma checkCompatible_same: "checkCompatible c c head = None"
  by (simp add: checkCompatible_def)

lemma newCompatError_fields [simp]:
  "What (newCompatError w s1 s2) = w"
  "StoredConfig (newCompatError w s1 s2) = s1"
  "NewConfig (newCompatError w s1 s2) = s2"
  by (simp_all add: newCompatError_def Let_def)

lemma uint_pred_word_of_int:
  assumes "0 < v"
  shows "uint (word_of_int v - 1 :: 64 word) = take_bit 64 (v - 1)"
proof -
  have "(word_of_int v - 1 :: 64 word) = word_of_int (v - 1)" by simp
  then show ?thesis by (simp only: uint_word_of_int_eq) simp
qed

text \<open>The rewind target of an error lies below the head it was found at, or is 0.\<close>

lemma newCompatError_le:
  assumes "isForked s1 (Some b) \<or> isForked s2 (Some b)"
  shows "uint (RewindTo (newCompatError w s1 s2)) = 0
           \<or> uint (RewindTo (newCompatError w s1 s2)) < b"
proof -
  define rew where "rew = (if s1 = None then s2
             else if s2 = None \<or> the s1 < the s2 then s1
             else s2)"
  from assms have "\<exists>v. rew = Some v \<and> v \<le> b"
    by (cases s1; cases s2) (auto simp: rew_def)
  then obtain v where v: "rew = Some v" "v \<le> b" by blast
  show ?thesis
  proof (cases "0 < v")
    case False
    then show ?thesis using v by (simp add: newCompatError_def Let_def rew_def [symmetric])
  next
    case True
    have "take_bit 64 (v - 1) \<le> v - 1"
      by (rule take_bit_int_less_eq_self_iff [THEN iffD2]) (use True in simp)
    with uint_pred_word_of_int [OF True] v
    have "uint (word_of_int v - 1 :: 64 word) < b" by linarith
    then show ?thesis using v True
      by (simp add: newCompatError_def Let_def rew_def [symmetric])
  qed
qed

lemma checkCompatible_bound:
  assumes "checkCompatible c n (Some b) = Some err"
  shows "uint (RewindTo err) = 0 \<or> uint (RewindTo err) < b"
  using assms by (elim checkCompatible_SomeE) (simp add: newCompatError_le)

section \<open>The rewind loop\<close>

lemma loop_None:
  assumes "checkCompatible c n (Some b) = None"
  shows "CheckCompatible_loop c n l b = Some l"
  by (subst CheckCompatible_loop.simps) (simp only: assms option.case)

lemma loop_stop:
  assumes "checkCompatible c n (Some b) = Some err"
    and "l \<noteq> None \<and> RewindTo err = RewindTo (the l)"
  shows "CheckCompatible_loop c n l b = Some l"
  using assms by (subst CheckCompatible_loop.simps) simp

lemma loop_step:
  assumes "checkCompatible c n (Some b) = Some err"
    and "\<not> (l \<noteq> None \<and> RewindTo err = RewindTo (the l))"
  shows "CheckCompatible_loop c n l b
           = CheckCompatible_loop c n (Some err) (uint (RewindTo err))"
  by (subst CheckCompatible_loop.simps) (simp only: assms option.case if_False)

text \<open>
  Induction over the iterations of the loop. Twice the head, plus one while
  \<open>lasterr\<close> is nil or its rewind target is not the head, decreases at every
  iteration that does not break.
\<close>

lemma loop_induct:
  assumes step: "\<And>l b. (\<And>err. checkCompatible c n (Some b) = Some err
              \<Longrightarrow> \<not> (l \<noteq> None \<and> RewindTo err = RewindTo (the l))
              \<Longrightarrow> P (Some err) (uint (RewindTo err))) \<Longrightarrow> P l b"
  shows "P l b"
proof (induction "2 * nat b + (if l = None \<or> uint (RewindTo (the l)) \<noteq> b then 1 else 0)"
         arbitrary: l b rule: less_induct)
  case less
  show ?case
  proof (rule step)
    fix err
    assume e: "checkCompatible c n (Some b) = Some err"
      and go: "\<not> (l \<noteq> None \<and> RewindTo err = RewindTo (the l))"
    from checkCompatible_bound [OF e]
    have "uint (RewindTo err) < b \<or> (uint (RewindTo err) = 0 \<and> b \<le> 0)" by linarith
    then have "2 * nat (uint (RewindTo err))
        < 2 * nat b + (if l = None \<or> uint (RewindTo (the l)) \<noteq> b then 1 else 0)"
    proof
      assume "uint (RewindTo err) < b"
      moreover have "0 \<le> uint (RewindTo err)" by simp
      ultimately have "nat (uint (RewindTo err)) < nat b" by linarith
      then show ?thesis by linarith
    next
      assume z: "uint (RewindTo err) = 0 \<and> b \<le> 0"
      then have "RewindTo err = 0" by (simp add: uint_0_iff)
      with go have "l = None \<or> uint (RewindTo (the l)) \<noteq> 0" by (auto simp: uint_0_iff)
      moreover have "0 \<le> uint (RewindTo (the l))" by simp
      ultimately have "l = None \<or> uint (RewindTo (the l)) \<noteq> b" using z by linarith
      then have "(if l = None \<or> uint (RewindTo (the l)) \<noteq> b then 1 else 0) = (1::nat)"
        by simp
      moreover have "nat (uint (RewindTo err)) = 0" using z by simp
      ultimately show ?thesis by linarith
    qed
    then show "P (Some err) (uint (RewindTo err))"
      by (intro less) simp
  qed
qed

lemma loop_terminates: "\<exists>r. CheckCompatible_loop c n l b = Some r"
proof (induction l b rule: loop_induct [where c = c and n = n])
  case (1 l b)
  show ?case
  proof (cases "checkCompatible c n (Some b)")
    case None
    then show ?thesis by (simp add: loop_None)
  next
    case (Some err)
    show ?thesis
    proof (cases "l \<noteq> None \<and> RewindTo err = RewindTo (the l)")
      case True
      with Some show ?thesis by (simp add: loop_stop)
    next
      case False
      from 1 [OF Some False] show ?thesis
        by (simp only: loop_step [OF Some False])
    qed
  qed
qed

lemma loop_rewind_bound:
  assumes "CheckCompatible_loop c n l b = Some (Some e)" and "0 \<le> H" and "b \<le> H"
    and "\<forall>e'. l = Some e' \<longrightarrow> uint (RewindTo e') = 0 \<or> uint (RewindTo e') < H"
  shows "uint (RewindTo e) = 0 \<or> uint (RewindTo e) < H"
  using assms
proof (induction l b rule: loop_induct [where c = c and n = n])
  case (1 l b)
  show ?case
  proof (cases "checkCompatible c n (Some b)")
    case None
    with "1.prems"(1) have "l = Some e" by (simp add: loop_None)
    with "1.prems"(4) show ?thesis by simp
  next
    case (Some err)
    show ?thesis
    proof (cases "l \<noteq> None \<and> RewindTo err = RewindTo (the l)")
      case True
      with Some "1.prems"(1) have "l = Some e" by (simp add: loop_stop)
      with "1.prems"(4) show ?thesis by simp
    next
      case False
      from "1.prems"(1)
      have run: "CheckCompatible_loop c n (Some err) (uint (RewindTo err)) = Some (Some e)"
        by (simp only: loop_step [OF Some False])
      from checkCompatible_bound [OF Some] "1.prems"(2,3)
      have b: "uint (RewindTo err) = 0 \<or> uint (RewindTo err) < H" by linarith
      then have "uint (RewindTo err) \<le> H" using "1.prems"(2) by linarith
      with "1.IH" [OF Some False run "1.prems"(2)] b show ?thesis by simp
    qed
  qed
qed

lemma petersburg_forgiven:
  assumes "\<not> isForkIncompatible (ConstantinopleBlock c) p (Some (uint height))"
  shows "CheckCompatible c (c\<lparr>PetersburgBlock := p\<rparr>) height = Some None"
  using assms by (simp add: CheckCompatible_def loop_None checkCompatible_def)

lemma chainID_only_after_EIP158:
  assumes "checkCompatible c newcfg head = Some err" and "What err = ''EIP158 chain ID''"
  shows "IsEIP158 c head \<and> ChainID c \<noteq> ChainID newcfg"
  using assms unfolding checkCompatible_def
  by (elim if_Some_chainE) simp_all

lemma chainID_pass:
  assumes "EIP158Block c = Some 0" and "ChainID c = Some 1" and "ChainID newcfg = Some 2"
    and "HomesteadBlock newcfg = HomesteadBlock c" and "DAOForkBlock newcfg = DAOForkBlock c"
    and "DAOForkSupport newcfg = DAOForkSupport c" and "EIP150Block newcfg = EIP150Block c"
    and "EIP155Block newcfg = EIP155Block c" and "EIP158Block newcfg = EIP158Block c"
    and "0 \<le> b"
  shows "checkCompatible c newcfg (Some b)
     = Some \<lparr>What = ''EIP158 chain ID'', StoredConfig = Some 0, NewConfig = Some 0, RewindTo = 0\<rparr>"
  using assms by (simp add: checkCompatible_def IsDAOFork_def IsEIP158_def newCompatError_def Let_def)

lemma rew_spec_chosen_value:
  "(if s1 = None then s2 else if s2 = None \<or> the s1 < the s2 then s1 else s2)
     = spec_chosen_value s1 s2"
  by (cases s1; cases s2) (auto simp: spec_chosen_value_def)

lemma newCompatError_rewind:
  assumes "isForked s1 (Some b) \<or> isForked s2 (Some b)" and "b < 2 ^ 64"
  shows "\<exists>v. spec_chosen_value s1 s2 = Some v
           \<and> uint (RewindTo (newCompatError w s1 s2)) = max 0 (v - 1)"
proof -
  from assms(1) have "\<exists>v. spec_chosen_value s1 s2 = Some v \<and> v \<le> b"
    by (cases s1; cases s2) (auto simp: spec_chosen_value_def)
  then obtain v where v: "spec_chosen_value s1 s2 = Some v" "v \<le> b" by blast
  have "uint (RewindTo (newCompatError w s1 s2)) = max 0 (v - 1)"
  proof (cases "0 < v")
    case False
    then show ?thesis using v
      by (simp add: newCompatError_def Let_def rew_spec_chosen_value)
  next
    case True
    with v assms(2) have "take_bit 64 (v - 1) = v - 1"
      by (intro take_bit_int_eq_self) simp_all
    with uint_pred_word_of_int [OF True] True show ?thesis using v
      by (simp add: newCompatError_def Let_def rew_spec_chosen_value)
  qed
  with v show ?thesis by blast
qed

lemma loop_result:
  assumes "CheckCompatible_loop c n l b = Some (Some e)" and "0 \<le> b" and "b < 2 ^ 64"
    and "\<forall>e'. l = Some e' \<longrightarrow> Q e'"
    and pass: "\<And>b err. 0 \<le> b \<Longrightarrow> b < 2 ^ 64 \<Longrightarrow> checkCompatible c n (Some b) = Some err
                 \<Longrightarrow> Q err"
  shows "Q e"
  using assms(1-4)
proof (induction l b rule: loop_induct [where c = c and n = n])
  case (1 l b)
  show ?case
  proof (cases "checkCompatible c n (Some b)")
    case None
    with "1.prems"(1) have "l = Some e" by (simp add: loop_None)
    with "1.prems"(4) show ?thesis by simp
  next
    case (Some err)
    show ?thesis
    proof (cases "l \<noteq> None \<and> RewindTo err = RewindTo (the l)")
      case True
      with Some "1.prems"(1) have "l = Some e" by (simp add: loop_stop)
      with "1.prems"(4) show ?thesis by simp
    next
      case False
      from "1.prems"(1)
      have run: "CheckCompatible_loop c n (Some err) (uint (RewindTo err)) = Some (Some e)"
        by (simp only: loop_step [OF Some False])
      have "Q err" using "1.prems"(2,3) Some by (rule pass)
      moreover have "uint (RewindTo err) < 2 ^ 64" using uint_lt2p [of "RewindTo err"] by simp
      ultimately show ?thesis using "1.IH" [OF Some False run] by simp
    qed
  qed
qed

lemmas CheckCompatible_eval =
  CheckCompatible_def checkCompatible_def isForkIncompatible_def newCompatError_def
  IsDAOFork_def IsEIP158_def CheckCompatible_loop.simps Let_def

section \<open>Claims about the compatibility checker\<close>

text \<open>
  Claim C5. For every configuration and every height, \<open>CheckCompatible\<close> of a
  configuration against itself returns nil: the loop returns, and it returns no error.
\<close>

theorem CheckCompatible_self: "CheckCompatible c c height = Some None"
  by (simp add: CheckCompatible_def loop_None checkCompatible_same)

text \<open>
  Claim C9. For every pair of configurations and every starting height the loop of
  \<open>CheckCompatible\<close> exits after finitely many iterations and returns a result.
\<close>

theorem CheckCompatible_terminates: "\<exists>r. CheckCompatible c newcfg height = Some r"
  by (simp add: CheckCompatible_def loop_terminates)

text \<open>
  Claim C10. Whenever \<open>CheckCompatible\<close> returns a non-nil error, its \<open>RewindTo\<close> is
  0 or strictly less than the given height.
\<close>

theorem CheckCompatible_rewinds:
  assumes "CheckCompatible c newcfg height = Some (Some err)"
  shows "RewindTo err = 0 \<or> RewindTo err < height"
proof -
  from assms have "CheckCompatible_loop c newcfg None (uint height) = Some (Some err)"
    by (simp add: CheckCompatible_def)
  then have "uint (RewindTo err) = 0 \<or> uint (RewindTo err) < uint height"
    by (rule loop_rewind_bound) simp_all
  then show ?thesis by (simp add: uint_0_iff word_less_def)
qed

theorem CheckCompatible_rewinds_witness:
  "CheckCompatible (TestChainConfig\<lparr>HomesteadBlock := Some 5\<rparr>)
       (TestChainConfig\<lparr>HomesteadBlock := Some 7\<rparr>) 10
     = Some (Some \<lparr>What = ''Homestead fork block'', StoredConfig = Some 5,
                   NewConfig = Some 7, RewindTo = 4\<rparr>)
   \<and> ((4 :: 64 word) = 0 \<or> (4 :: 64 word) < 10)"
proof -
  have run: "CheckCompatible (TestChainConfig\<lparr>HomesteadBlock := Some 5\<rparr>)
       (TestChainConfig\<lparr>HomesteadBlock := Some 7\<rparr>) 10
     = Some (Some \<lparr>What = ''Homestead fork block'', StoredConfig = Some 5,
                   NewConfig = Some 7, RewindTo = 4\<rparr>)"
    by (simp add: CheckCompatible_eval TestChainConfig_def)
  from CheckCompatible_rewinds [OF run] run show ?thesis by simp
qed

text \<open>
  Claim C1, as stated: stored Homestead at 0, new Homestead at 5, height 10 give an
  error whose \<open>RewindTo\<close> is 4. On \<open>TestChainConfig\<close> the error returned has
  \<open>RewindTo\<close> 0: the lower of the two values is 0, and nothing lies below genesis.
\<close>

theorem homestead_rewind_4_counterexample:
  "HomesteadBlock TestChainConfig = Some 0
   \<and> CheckCompatible TestChainConfig (TestChainConfig\<lparr>HomesteadBlock := Some 5\<rparr>) 10
     = Some (Some \<lparr>What = ''Homestead fork block'', StoredConfig = Some 0,
                   NewConfig = Some 5, RewindTo = 0\<rparr>)
   \<and> RewindTo \<lparr>What = ''Homestead fork block'', StoredConfig = Some 0,
                   NewConfig = Some 5, RewindTo = 0\<rparr> \<noteq> 4"
  by (simp add: CheckCompatible_eval TestChainConfig_def)

text \<open>
  Claim C1, amended. For a stored configuration with Homestead at 0 and a new one that
  differs only in Homestead at 5, \<open>CheckCompatible\<close> at height 10 returns the
  Homestead mismatch with \<open>RewindTo\<close> 0.
\<close>

theorem homestead_rewind_0:
  assumes "HomesteadBlock c = Some 0"
  shows "CheckCompatible c (c\<lparr>HomesteadBlock := Some 5\<rparr>) 10
     = Some (Some \<lparr>What = ''Homestead fork block'', StoredConfig = Some 0,
                   NewConfig = Some 5, RewindTo = 0\<rparr>)"
  using assms by (simp add: CheckCompatible_eval)

theorem homestead_rewind_0_witness:
  "HomesteadBlock TestLaunchConfig = Some 0
   \<and> CheckCompatible TestLaunchConfig (TestLaunchConfig\<lparr>HomesteadBlock := Some 5\<rparr>) 10
     = Some (Some \<lparr>What = ''Homestead fork block'', StoredConfig = Some 0,
                   NewConfig = Some 5, RewindTo = 0\<rparr>)"
  using homestead_rewind_0 [of TestLaunchConfig] by (simp add: TestLaunchConfig_def)

text \<open>
  Claim C3. When a mismatch is reported, the error is the one \<open>newCompatError\<close>
  builds from its stored and new value, the value that governs is the lower of the two
  (the other one when one is absent), and \<open>RewindTo\<close> is that value less one, and 0
  when the value is 0 or below.
\<close>

theorem rewind_target_spec:
  assumes "CheckCompatible c newcfg height = Some (Some err)"
  shows "\<exists>v. err = newCompatError (What err) (StoredConfig err) (NewConfig err)
           \<and> spec_chosen_value (StoredConfig err) (NewConfig err) = Some v
           \<and> uint (RewindTo err) = max 0 (v - 1)"
proof -
  let ?Q = "\<lambda>e. \<exists>v. e = newCompatError (What e) (StoredConfig e) (NewConfig e)
           \<and> spec_chosen_value (StoredConfig e) (NewConfig e) = Some v
           \<and> uint (RewindTo e) = max 0 (v - 1)"
  from assms have run: "CheckCompatible_loop c newcfg None (uint height) = Some (Some err)"
    by (simp add: CheckCompatible_def)
  have lt: "uint height < 2 ^ 64" using uint_lt2p [of height] by simp
  have pass: "?Q e" if "0 \<le> b" "b < 2 ^ 64" "checkCompatible c newcfg (Some b) = Some e"
    for b e
    using that(3)
  proof (rule checkCompatible_SomeE)
    fix w s1 s2
    assume "e = newCompatError w s1 s2" "isForked s1 (Some b) \<or> isForked s2 (Some b)"
    then show ?thesis using newCompatError_rewind [of s1 b s2 w] that(2) by simp
  qed
  show ?thesis
    by (rule loop_result [where Q = ?Q, OF run _ lt _ pass]) simp_all
qed

theorem rewind_target_spec_witness:
  "CheckCompatible (TestChainConfig\<lparr>HomesteadBlock := Some 5\<rparr>)
       (TestChainConfig\<lparr>HomesteadBlock := None\<rparr>) 10
     = Some (Some \<lparr>What = ''Homestead fork block'', StoredConfig = Some 5,
                   NewConfig = None, RewindTo = 4\<rparr>)
   \<and> (\<exists>v. \<lparr>What = ''Homestead fork block'', StoredConfig = Some 5,
                   NewConfig = None, RewindTo = 4\<rparr>
             = newCompatError ''Homestead fork block'' (Some 5) None
          \<and> spec_chosen_value (Some 5) None = Some v
          \<and> uint (4 :: 64 word) = max 0 (v - 1))"
proof -
  have run: "CheckCompatible (TestChainConfig\<lparr>HomesteadBlock := Some 5\<rparr>)
       (TestChainConfig\<lparr>HomesteadBlock := None\<rparr>) 10
     = Some (Some \<lparr>What = ''Homestead fork block'', StoredConfig = Some 5,
                   NewConfig = None, RewindTo = 4\<rparr>)"
    by (simp add: CheckCompatible_eval TestChainConfig_def)
  from rewind_target_spec [OF run] run show ?thesis by simp
qed

text \<open>
  Claim C6. With Petersburg absent and Constantinople at 0 in the stored configuration,
  a new configuration that differs only in Petersburg at 0 is compatible at every
  height.
\<close>

theorem petersburg_exception:
  assumes "PetersburgBlock c = None" and "ConstantinopleBlock c = Some 0"
  shows "CheckCompatible c (c\<lparr>PetersburgBlock := Some 0\<rparr>) height = Some None"
  using assms by (simp add: petersburg_forgiven)

theorem petersburg_exception_witness:
  "PetersburgBlock (TestChainConfig\<lparr>PetersburgBlock := None\<rparr>) = None
   \<and> ConstantinopleBlock (TestChainConfig\<lparr>PetersburgBlock := None\<rparr>) = Some 0
   \<and> CheckCompatible (TestChainConfig\<lparr>PetersburgBlock := None\<rparr>)
        (TestChainConfig\<lparr>PetersburgBlock := None, PetersburgBlock := Some 0\<rparr>) 7 = Some None"
  using petersburg_exception [of "TestChainConfig\<lparr>PetersburgBlock := None\<rparr>" 7]
  by (simp add: TestChainConfig_def)

text \<open>
  Claim C7, as stated: EIP158 at 0 and chain ID 1 stored, chain ID 2 in the new
  configuration, height 100 give the EIP158 chain ID mismatch. When the new
  configuration also leaves Homestead unset, the Homestead check, which comes first,
  reports its own mismatch instead.
\<close>

theorem chainID_other_fields_counterexample:
  "EIP158Block TestChainConfig = Some 0 \<and> ChainID TestChainConfig = Some 1
   \<and> ChainID (TestChainConfig\<lparr>ChainID := Some 2, HomesteadBlock := None\<rparr>) = Some 2
   \<and> CheckCompatible TestChainConfig
        (TestChainConfig\<lparr>ChainID := Some 2, HomesteadBlock := None\<rparr>) 100
      = Some (Some \<lparr>What = ''Homestead fork block'', StoredConfig = Some 0,
                    NewConfig = None, RewindTo = 0\<rparr>)
   \<and> What \<lparr>What = ''Homestead fork block'', StoredConfig = Some 0,
                    NewConfig = None, RewindTo = 0\<rparr> \<noteq> ''EIP158 chain ID''"
  by (simp add: CheckCompatible_eval TestChainConfig_def)

text \<open>
  Claim C7, amended. With EIP158 at 0 and chain ID 1 stored, a new configuration with
  chain ID 2 that agrees with the stored one on every field checked before the chain ID
  (the Homestead, DAO, EIP150, EIP155 and EIP158 blocks and the DAO support flag) gives,
  at height 100, the EIP158 chain ID mismatch with \<open>RewindTo\<close> 0; and a pass reports
  that mismatch only when EIP158 is active under the stored configuration at the head
  (and the chain IDs differ).
\<close>

theorem chainID_mismatch:
  "(EIP158Block c = Some 0 \<and> ChainID c = Some 1 \<and> ChainID newcfg = Some 2
     \<and> HomesteadBlock newcfg = HomesteadBlock c \<and> DAOForkBlock newcfg = DAOForkBlock c
     \<and> DAOForkSupport newcfg = DAOForkSupport c \<and> EIP150Block newcfg = EIP150Block c
     \<and> EIP155Block newcfg = EIP155Block c \<and> EIP158Block newcfg = EIP158Block c \<longrightarrow>
      CheckCompatible c newcfg 100
        = Some (Some \<lparr>What = ''EIP158 chain ID'', StoredConfig = Some 0,
                      NewConfig = Some 0, RewindTo = 0\<rparr>))
   \<and> (checkCompatible c n head = Some err \<and> What err = ''EIP158 chain ID'' \<longrightarrow>
        IsEIP158 c head \<and> ChainID c \<noteq> ChainID n)"
proof (intro conjI impI)
  let ?e = "\<lparr>What = ''EIP158 chain ID'', StoredConfig = Some 0,
                      NewConfig = Some 0, RewindTo = 0 :: 64 word\<rparr>"
  assume a: "EIP158Block c = Some 0 \<and> ChainID c = Some 1 \<and> ChainID newcfg = Some 2
     \<and> HomesteadBlock newcfg = HomesteadBlock c \<and> DAOForkBlock newcfg = DAOForkBlock c
     \<and> DAOForkSupport newcfg = DAOForkSupport c \<and> EIP150Block newcfg = EIP150Block c
     \<and> EIP155Block newcfg = EIP155Block c \<and> EIP158Block newcfg = EIP158Block c"
  then have p: "checkCompatible c newcfg (Some b) = Some ?e" if "0 \<le> b" for b
    using that by (intro chainID_pass) simp_all
  have "CheckCompatible_loop c newcfg None 100 = CheckCompatible_loop c newcfg (Some ?e) 0"
    using loop_step [of c newcfg 100 ?e None] p [of 100] by simp
  also have "\<dots> = Some (Some ?e)"
    using loop_stop [of c newcfg 0 ?e "Some ?e"] p [of 0] by simp
  finally show "CheckCompatible c newcfg 100 = Some (Some ?e)"
    by (simp add: CheckCompatible_def)
next
  assume "checkCompatible c n head = Some err \<and> What err = ''EIP158 chain ID''"
  then show "IsEIP158 c head" "ChainID c \<noteq> ChainID n"
    using chainID_only_after_EIP158 [of c n head err] by simp_all
qed

theorem chainID_mismatch_witness:
  "(EIP158Block TestChainConfig = Some 0 \<and> ChainID TestChainConfig = Some 1
     \<and> ChainID (TestChainConfig\<lparr>ChainID := Some 2, IstanbulBlock := None\<rparr>) = Some 2
     \<and> HomesteadBlock (TestChainConfig\<lparr>ChainID := Some 2, IstanbulBlock := None\<rparr>)
         = HomesteadBlock TestChainConfig
     \<and> DAOForkBlock (TestChainConfig\<lparr>ChainID := Some 2, IstanbulBlock := None\<rparr>)
         = DAOForkBlock TestChainConfig
     \<and> DAOForkSupport (TestChainConfig\<lparr>ChainID := Some 2, IstanbulBlock := None\<rparr>)
         = DAOForkSupport TestChainConfig
     \<and> EIP150Block (TestChainConfig\<lparr>ChainID := Some 2, IstanbulBlock := None\<rparr>)
         = EIP150Block TestChainConfig
     \<and> EIP155Block (TestChainConfig\<lparr>ChainID := Some 2, IstanbulBlock := None\<rparr>)
         = EIP155Block TestChainConfig
     \<and> EIP158Block (TestChainConfig\<lparr>ChainID := Some 2, IstanbulBlock := None\<rparr>)
         = EIP158Block TestChainConfig)
   \<and> CheckCompatible TestChainConfig
        (TestChainConfig\<lparr>ChainID := Some 2, IstanbulBlock := None\<rparr>) 100
        = Some (Some \<lparr>What = ''EIP158 chain ID'', StoredConfig = Some 0,
                      NewConfig = Some 0, RewindTo = 0\<rparr>)
   \<and> (checkCompatible TestChainConfig (TestChainConfig\<lparr>ChainID := Some 2\<rparr>) (Some 100)
        = Some \<lparr>What = ''EIP158 chain ID'', StoredConfig = Some 0,
                      NewConfig = Some 0, RewindTo = 0\<rparr>
      \<and> What \<lparr>What = ''EIP158 chain ID'', StoredConfig = Some 0,
                      NewConfig = Some 0, RewindTo = 0\<rparr> = ''EIP158 chain ID'')
   \<and> IsEIP158 TestChainConfig (Some 100)
   \<and> ChainID TestChainConfig \<noteq> ChainID (TestChainConfig\<lparr>ChainID := Some 2\<rparr>)"
proof -
  let ?n = "TestChainConfig\<lparr>ChainID := Some 2, IstanbulBlock := None\<rparr>"
  have e: "EIP158Block TestChainConfig = Some 0 \<and> ChainID TestChainConfig = Some 1
     \<and> ChainID ?n = Some 2
     \<and> HomesteadBlock ?n = HomesteadBlock TestChainConfig
     \<and> DAOForkBlock ?n = DAOForkBlock TestChainConfig
     \<and> DAOForkSupport ?n = DAOForkSupport TestChainConfig
     \<and> EIP150Block ?n = EIP150Block TestChainConfig
     \<and> EIP155Block ?n = EIP155Block TestChainConfig
     \<and> EIP158Block ?n = EIP158Block TestChainConfig"
    by (simp add: TestChainConfig_def)
  have p: "checkCompatible TestChainConfig (TestChainConfig\<lparr>ChainID := Some 2\<rparr>) (Some 100)
        = Some \<lparr>What = ''EIP158 chain ID'', StoredConfig = Some 0,
                      NewConfig = Some 0, RewindTo = 0\<rparr>
      \<and> What \<lparr>What = ''EIP158 chain ID'', StoredConfig = Some 0,
                      NewConfig = Some 0, RewindTo = 0\<rparr> = ''EIP158 chain ID''"
    by (simp add: CheckCompatible_eval TestChainConfig_def)
  from chainID_mismatch [of TestChainConfig ?n "TestChainConfig\<lparr>ChainID := Some 2\<rparr>" "Some 100"
      "\<lparr>What = ''EIP158 chain ID'', StoredConfig = Some 0, NewConfig = Some 0, RewindTo = 0\<rparr>"]
    e p show ?thesis by blast
qed

section \<open>The walks of the fork order validator\<close>

lemma if_chain_None:
  "((if A then Some x else if B then Some y else r) = None) = (\<not> A \<and> \<not> B \<and> r = None)"
  by simp

lemma timestampLoop_ConsE:
  assumes "timestampLoop lf (cur # rest) = None"
  obtains "\<not> (name lf \<noteq> [] \<and> block lf = None \<and> block cur \<noteq> None)"
    and "\<not> (name lf \<noteq> [] \<and> block lf \<noteq> None \<and> block cur \<noteq> None
            \<and> the (block lf) > the (block cur))"
    and "timestampLoop (if \<not> optional cur \<or> block cur \<noteq> None then cur else lf) rest = None"
  using assms unfolding timestampLoop.simps if_chain_None by (elim conjE) (rule that)

lemma timestampLoop_after:
  assumes "timestampLoop lf fs = None" and "\<forall>f\<in>set fs. name f \<noteq> []" and "name lf \<noteq> []"
  shows "\<forall>f\<in>set fs. block f \<noteq> None \<longrightarrow> block lf \<noteq> None \<and> the (block lf) \<le> the (block f)"
  using assms
proof (induction fs arbitrary: lf)
  case Nil
  then show ?case by simp
next
  case (Cons cur rest)
  let ?lf' = "if \<not> optional cur \<or> block cur \<noteq> None then cur else lf"
  from Cons.prems(1) have ok: "\<not> (block lf = None \<and> block cur \<noteq> None)"
      "\<not> (block lf \<noteq> None \<and> block cur \<noteq> None \<and> the (block lf) > the (block cur))"
    and rest: "timestampLoop ?lf' rest = None"
    using Cons.prems(3) by (elim timestampLoop_ConsE; simp)+
  have "name ?lf' \<noteq> []" using Cons.prems by simp
  from Cons.IH [OF rest _ this] Cons.prems(2)
  have ih: "\<forall>f\<in>set rest. block f \<noteq> None \<longrightarrow>
               block ?lf' \<noteq> None \<and> the (block ?lf') \<le> the (block f)" by simp
  show ?case
  proof
    fix f assume "f \<in> set (cur # rest)"
    then consider "f = cur" | "f \<in> set rest" by auto
    then show "block f \<noteq> None \<longrightarrow> block lf \<noteq> None \<and> the (block lf) \<le> the (block f)"
    proof cases
      case 1
      with ok show ?thesis by auto
    next
      case 2
      with ih ok show ?thesis by (auto split: if_splits)
    qed
  qed
qed

lemma timestampLoop_sorted:
  assumes "timestampLoop lf fs = None" and "\<forall>f\<in>set fs. name f \<noteq> []"
  shows "sorted_wrt orderedPair fs"
  using assms
proof (induction fs arbitrary: lf)
  case Nil
  then show ?case by simp
next
  case (Cons cur rest)
  let ?lf' = "if \<not> optional cur \<or> block cur \<noteq> None then cur else lf"
  from Cons.prems(1) have rest: "timestampLoop ?lf' rest = None"
    by (rule timestampLoop_ConsE)
  from Cons.IH [OF rest] Cons.prems(2) have "sorted_wrt orderedPair rest" by simp
  moreover have "\<forall>B\<in>set rest. orderedPair cur B"
  proof (cases "optional cur \<and> block cur = None")
    case True
    then show ?thesis by (simp add: orderedPair_def)
  next
    case False
    then have "?lf' = cur" by auto
    with rest have "timestampLoop cur rest = None" by simp
    from timestampLoop_after [OF this] Cons.prems(2) show ?thesis
      by (simp add: orderedPair_def)
  qed
  ultimately show ?case by simp
qed

lemma if_chain3_None:
  "((if G then Some e else if A then Some x else if B then Some y else r) = None)
     = (\<not> G \<and> \<not> A \<and> \<not> B \<and> r = None)"
  by simp

lemma if_chain3_pass:
  "\<not> G \<Longrightarrow> \<not> A \<Longrightarrow> \<not> B
     \<Longrightarrow> (if G then Some e else if A then Some x else if B then Some y else r) = r"
  by simp

lemma if_chain_pass:
  "\<not> A \<Longrightarrow> \<not> B \<Longrightarrow> (if A then Some x else if B then Some y else r) = r"
  by simp

lemma heightLoop_Cons_pass:
  assumes "heightLoop lf (cur # pre) = None"
  shows "heightLoop lf (cur # xs)
           = heightLoop (if \<not> optional cur \<or> block cur \<noteq> None then cur else lf) xs"
    and "heightLoop (if \<not> optional cur \<or> block cur \<noteq> None then cur else lf) pre = None"
    and "timestampLoop lf (cur # xs)
           = timestampLoop (if \<not> optional cur \<or> block cur \<noteq> None then cur else lf) xs"
proof -
  from assms have g: "\<not> (block cur \<noteq> None \<and> 0 \<noteq> the (block cur))"
      "\<not> (name lf \<noteq> [] \<and> block lf = None \<and> block cur \<noteq> None)"
      "\<not> (name lf \<noteq> [] \<and> block lf \<noteq> None \<and> block cur \<noteq> None
            \<and> the (block lf) > the (block cur))"
    and r: "heightLoop (if \<not> optional cur \<or> block cur \<noteq> None then cur else lf) pre = None"
    unfolding heightLoop.simps if_chain3_None by blast+
  show "heightLoop lf (cur # xs)
           = heightLoop (if \<not> optional cur \<or> block cur \<noteq> None then cur else lf) xs"
    unfolding heightLoop.simps by (rule if_chain3_pass [OF g])
  show "heightLoop (if \<not> optional cur \<or> block cur \<noteq> None then cur else lf) pre = None"
    by (rule r)
  show "timestampLoop lf (cur # xs)
           = timestampLoop (if \<not> optional cur \<or> block cur \<noteq> None then cur else lf) xs"
    unfolding timestampLoop.simps by (rule if_chain_pass [OF g(2,3)])
qed

lemma heightLoop_imp_timestampLoop:
  "heightLoop lf fs = None \<Longrightarrow> timestampLoop lf fs = None"
proof (induction fs arbitrary: lf)
  case Nil
  then show ?case by simp
next
  case (Cons cur rest)
  from Cons.IH [OF heightLoop_Cons_pass(2) [OF Cons.prems]]
  show ?case by (simp only: heightLoop_Cons_pass(3) [OF Cons.prems])
qed

lemma fork_names:
  "\<forall>f\<in>set (heightForks c). name f \<noteq> []" "\<forall>f\<in>set (timestampForks c). name f \<noteq> []"
  by (simp_all add: heightForks_def timestampForks_def)

lemma CheckConfigForkOrder_None:
  assumes "CheckConfigForkOrder c = None"
  shows "heightLoop zeroFork (heightForks c) = None"
    and "timestampLoop zeroFork (timestampForks c) = None"
  using assms by (simp_all add: CheckConfigForkOrder_def split: option.splits)

lemmas CheckConfigForkOrder_eval =
  CheckConfigForkOrder_def heightForks_def timestampForks_def zeroFork_def

lemma heightLoop_rejects:
  "\<exists>f\<in>set fs. block f \<noteq> None \<and> block f \<noteq> Some 0 \<Longrightarrow> heightLoop lf fs \<noteq> None"
  by (induction fs arbitrary: lf) auto

lemma heightLoop_append:
  "heightLoop lf pre = None \<Longrightarrow> \<exists>lf'. heightLoop lf (pre @ rest) = heightLoop lf' rest"
proof (induction pre arbitrary: lf)
  case Nil
  then show ?case by auto
next
  case (Cons cur pre)
  from Cons.IH [OF heightLoop_Cons_pass(2) [OF Cons.prems]]
  show ?case by (simp only: append_Cons heightLoop_Cons_pass(1) [OF Cons.prems])
qed

lemma heightForks_timestamps [simp]:
  "heightForks (c\<lparr>ApricotPhase1BlockTimestamp := a\<rparr>) = heightForks c"
  "heightForks (c\<lparr>ApricotPhase2BlockTimestamp := a\<rparr>) = heightForks c"
  "heightForks (c\<lparr>ApricotPhase3BlockTimestamp := a\<rparr>) = heightForks c"
  "heightForks (c\<lparr>ApricotPhase4BlockTimestamp := a\<rparr>) = heightForks c"
  by (simp_all add: heightForks_def)

lemma if_chain3_rest:
  assumes "(if G then Some e1 else if A then Some x else if B then Some y else r) = Some e"
    and "r = Some e \<Longrightarrow> r' = Some e"
  shows "(if G then Some e1 else if A then Some x else if B then Some y else r') = Some e"
  using assms by (cases G; cases A; cases B) simp_all

lemma heightLoop_append_Some:
  "heightLoop lf pre = Some e \<Longrightarrow> heightLoop lf (pre @ rest) = Some e"
proof (induction pre arbitrary: lf)
  case Nil
  then show ?case by simp
next
  case (Cons cur pre)
  from Cons.prems show ?case
    unfolding append_Cons heightLoop.simps
    by (rule if_chain3_rest) (rule Cons.IH)
qed

lemma if_chain3_hit:
  "\<not> G \<Longrightarrow> A \<Longrightarrow> (if G then Some e1 else if A then Some x else r) = Some x"
  by simp

text \<open>Among forks that are unset or at 0, the only error of the walk is the one
  for a fork set after an unset one.\<close>

lemma heightLoop_genesis_error:
  assumes "heightLoop lf fs = Some e"
    and "\<forall>g\<in>set fs. block g = None \<or> block g = Some 0"
    and "block lf = None \<or> block lf = Some 0"
  shows "\<exists>a b. e = errNotEnabledButEnabled a b 0"
  using assms
proof (induction fs arbitrary: lf)
  case Nil
  then show ?case by simp
next
  case (Cons cur rest)
  let ?A = "name lf \<noteq> [] \<and> block lf = None \<and> block cur \<noteq> None"
  let ?lf' = "if \<not> optional cur \<or> block cur \<noteq> None then cur else lf"
  from Cons.prems(2) have cur: "block cur = None \<or> block cur = Some 0" by simp
  then have g: "\<not> (block cur \<noteq> None \<and> 0 \<noteq> the (block cur))" by auto
  from cur Cons.prems(3)
  have b: "\<not> (name lf \<noteq> [] \<and> block lf \<noteq> None \<and> block cur \<noteq> None
            \<and> the (block lf) > the (block cur))" by auto
  show ?case
  proof (cases ?A)
    case True
    have "heightLoop lf (cur # rest)
        = Some (errNotEnabledButEnabled (name lf) (name cur) (the (block cur)))"
      unfolding heightLoop.simps by (rule if_chain3_hit [OF g True])
    moreover from True cur have "the (block cur) = 0" by auto
    ultimately show ?thesis using Cons.prems(1) by auto
  next
    case False
    have "heightLoop lf (cur # rest) = heightLoop ?lf' rest"
      unfolding heightLoop.simps by (rule if_chain3_pass [OF g False b])
    with Cons.prems(1) have run: "heightLoop ?lf' rest = Some e" by simp
    have "block ?lf' = None \<or> block ?lf' = Some 0" using cur Cons.prems(3) by simp
    from Cons.IH [OF run _ this] Cons.prems(2) show ?thesis by simp
  qed
qed

lemma timestampLoop_not_sentinel:
  "timestampLoop lf fs \<noteq> Some errNonGenesisForkByHeight"
proof (induction fs arbitrary: lf)
  case Nil
  then show ?case by simp
next
  case (Cons cur rest)
  have "(if A then Some x else if B then Some y else r) \<noteq> Some s"
    if "x \<noteq> s" "y \<noteq> s" "r \<noteq> Some s" for A B x y s and r :: "error option"
    using that by simp
  from this [OF _ _ Cons.IH] show ?case
    unfolding timestampLoop.simps by simp
qed

lemma timestamps_accepted_iff:
  "(timestampLoop zeroFork (timestampForks c) = None)
     = ((ApricotPhase2BlockTimestamp c = None
          \<or> (ApricotPhase1BlockTimestamp c \<noteq> None
              \<and> the (ApricotPhase1BlockTimestamp c) \<le> the (ApricotPhase2BlockTimestamp c)))
        \<and> (ApricotPhase3BlockTimestamp c = None
          \<or> (ApricotPhase2BlockTimestamp c \<noteq> None
              \<and> the (ApricotPhase2BlockTimestamp c) \<le> the (ApricotPhase3BlockTimestamp c)))
        \<and> (ApricotPhase4BlockTimestamp c = None
          \<or> (ApricotPhase3BlockTimestamp c \<noteq> None
              \<and> the (ApricotPhase3BlockTimestamp c) \<le> the (ApricotPhase4BlockTimestamp c))))"
  by (cases "ApricotPhase1BlockTimestamp c"; cases "ApricotPhase2BlockTimestamp c";
      cases "ApricotPhase3BlockTimestamp c"; cases "ApricotPhase4BlockTimestamp c")
     (simp_all add: timestampForks_def zeroFork_def)

section \<open>Claims about the fork order validator\<close>

text \<open>
  Claim C2, as stated: in an accepted configuration, a fork active at a point has every
  earlier fork of its axis active there. \<open>TestChainConfig\<close> is accepted, and at
  height 0 its EIP150 fork is active while the DAO fork before it, which is optional and
  unset, is not.
\<close>

theorem fork_order_optional_counterexample:
  "CheckConfigForkOrder TestChainConfig = None
   \<and> name (heightForks TestChainConfig ! 1) = ''daoForkBlock''
   \<and> name (heightForks TestChainConfig ! 2) = ''eip150Block''
   \<and> isForked (block (heightForks TestChainConfig ! 2)) (Some 0)
   \<and> \<not> isForked (block (heightForks TestChainConfig ! 1)) (Some 0)"
  by (simp add: CheckConfigForkOrder_def heightForks_def timestampForks_def zeroFork_def
      TestChainConfig_def)

text \<open>
  Claim C2, amended. In a configuration accepted by \<open>CheckConfigForkOrder\<close>, for
  forks \<open>A\<close> before \<open>B\<close> in the list of one axis, \<open>A\<close> not being an optional fork
  left unset: if \<open>B\<close> is active at a reference point then so is \<open>A\<close>.
\<close>

theorem fork_order_invariant:
  assumes "CheckConfigForkOrder c = None"
    and "fs = heightForks c \<or> fs = timestampForks c"
    and "i < j" and "j < length fs"
    and "\<not> (optional (fs ! i) \<and> block (fs ! i) = None)"
    and "isForked (block (fs ! j)) X"
  shows "isForked (block (fs ! i)) X"
proof -
  from assms(1,2) have "timestampLoop zeroFork fs = None" "\<forall>f\<in>set fs. name f \<noteq> []"
    using CheckConfigForkOrder_None [of c] heightLoop_imp_timestampLoop fork_names [of c]
    by auto
  then have "sorted_wrt orderedPair fs" by (rule timestampLoop_sorted)
  with assms(3,4) have "orderedPair (fs ! i) (fs ! j)" by (simp add: sorted_wrt_nth_less)
  with assms(5,6) show ?thesis
    by (cases "block (fs ! i)"; cases "block (fs ! j)"; cases X)
       (auto simp: orderedPair_def)
qed

theorem fork_order_invariant_witness:
  "CheckConfigForkOrder (TestChainConfig\<lparr>ApricotPhase3BlockTimestamp := Some 5,
       ApricotPhase4BlockTimestamp := Some 9\<rparr>) = None
   \<and> (2::nat) < 3
   \<and> 3 < length (timestampForks (TestChainConfig\<lparr>ApricotPhase3BlockTimestamp := Some 5,
       ApricotPhase4BlockTimestamp := Some 9\<rparr>))
   \<and> \<not> (optional (timestampForks (TestChainConfig\<lparr>ApricotPhase3BlockTimestamp := Some 5,
       ApricotPhase4BlockTimestamp := Some 9\<rparr>) ! 2)
        \<and> block (timestampForks (TestChainConfig\<lparr>ApricotPhase3BlockTimestamp := Some 5,
       ApricotPhase4BlockTimestamp := Some 9\<rparr>) ! 2) = None)
   \<and> isForked (block (timestampForks (TestChainConfig\<lparr>ApricotPhase3BlockTimestamp := Some 5,
       ApricotPhase4BlockTimestamp := Some 9\<rparr>) ! 3)) (Some 10)
   \<and> isForked (block (timestampForks (TestChainConfig\<lparr>ApricotPhase3BlockTimestamp := Some 5,
       ApricotPhase4BlockTimestamp := Some 9\<rparr>) ! 2)) (Some 10)"
  using fork_order_invariant [of "TestChainConfig\<lparr>ApricotPhase3BlockTimestamp := Some 5,
       ApricotPhase4BlockTimestamp := Some 9\<rparr>"
      "timestampForks (TestChainConfig\<lparr>ApricotPhase3BlockTimestamp := Some 5,
       ApricotPhase4BlockTimestamp := Some 9\<rparr>)" 2 3 "Some 10"]
  by (simp add: CheckConfigForkOrder_eval TestChainConfig_def)

text \<open>
  Claim C8, as stated: a height fork set to a value other than 0 is rejected with the
  non-genesis error. With Homestead unset and EIP155 at 5, the walk stops earlier, at
  EIP150, with an ordering error.
\<close>

theorem non_genesis_error_kind_counterexample:
  "EIP155Block (TestChainConfig\<lparr>HomesteadBlock := None, EIP155Block := Some 5\<rparr>) = Some 5
   \<and> CheckConfigForkOrder (TestChainConfig\<lparr>HomesteadBlock := None, EIP155Block := Some 5\<rparr>)
       = Some (errNotEnabledButEnabled ''homesteadBlock'' ''eip150Block'' 0)
   \<and> errNotEnabledButEnabled ''homesteadBlock'' ''eip150Block'' 0 \<noteq> errNonGenesisForkByHeight"
  by (simp add: CheckConfigForkOrder_eval TestChainConfig_def)

text \<open>
  Claim C8, amended. \<open>CheckConfigForkOrder\<close> rejects every configuration in which
  a height fork is set to a value other than 0. The error is the non-genesis one when
  the walk over the forks before that one finds no error; an error found in an earlier
  part of the list is the one returned, and among forks that are unset or at 0 it is
  the ordering error for a fork set at 0 after an unset one. The Apricot timestamps are
  not under the restriction: when the height forks pass, the result is never the
  non-genesis error, and the configuration is accepted exactly when every phase that
  is set has the phase before it set, at no later timestamp; in particular any four
  ascending timestamps are accepted.
\<close>

theorem non_genesis_fork_rejected:
  "((\<exists>f\<in>set (heightForks c). block f \<noteq> None \<and> block f \<noteq> Some 0) \<longrightarrow>
       CheckConfigForkOrder c \<noteq> None)
   \<and> (heightForks c = pre @ f # post \<and> block f \<noteq> None \<and> block f \<noteq> Some 0
        \<and> heightLoop zeroFork pre = None \<longrightarrow>
       CheckConfigForkOrder c = Some errNonGenesisForkByHeight)
   \<and> (heightForks c2 = pre2 @ post2 \<and> heightLoop zeroFork pre2 = Some e \<longrightarrow>
       CheckConfigForkOrder c2 = Some e
       \<and> ((\<forall>g\<in>set pre2. block g = None \<or> block g = Some 0) \<longrightarrow>
            (\<exists>a b. e = errNotEnabledButEnabled a b 0)))
   \<and> (heightLoop zeroFork (heightForks c') = None \<longrightarrow>
       CheckConfigForkOrder c' \<noteq> Some errNonGenesisForkByHeight
       \<and> (CheckConfigForkOrder c' = None)
         = ((ApricotPhase2BlockTimestamp c' = None
              \<or> (ApricotPhase1BlockTimestamp c' \<noteq> None
                  \<and> the (ApricotPhase1BlockTimestamp c') \<le> the (ApricotPhase2BlockTimestamp c')))
            \<and> (ApricotPhase3BlockTimestamp c' = None
              \<or> (ApricotPhase2BlockTimestamp c' \<noteq> None
                  \<and> the (ApricotPhase2BlockTimestamp c') \<le> the (ApricotPhase3BlockTimestamp c')))
            \<and> (ApricotPhase4BlockTimestamp c' = None
              \<or> (ApricotPhase3BlockTimestamp c' \<noteq> None
                  \<and> the (ApricotPhase3BlockTimestamp c')
                      \<le> the (ApricotPhase4BlockTimestamp c')))))
   \<and> (heightLoop zeroFork (heightForks c') = None \<and> t1 \<le> t2 \<and> t2 \<le> t3 \<and> t3 \<le> t4 \<longrightarrow>
       CheckConfigForkOrder (c'\<lparr>ApricotPhase1BlockTimestamp := Some t1,
          ApricotPhase2BlockTimestamp := Some t2, ApricotPhase3BlockTimestamp := Some t3,
          ApricotPhase4BlockTimestamp := Some t4\<rparr>) = None)"
proof (intro conjI impI)
  assume "\<exists>f\<in>set (heightForks c). block f \<noteq> None \<and> block f \<noteq> Some 0"
  then have "heightLoop zeroFork (heightForks c) \<noteq> None" by (rule heightLoop_rejects)
  then show "CheckConfigForkOrder c \<noteq> None"
    by (auto simp: CheckConfigForkOrder_def split: option.splits)
next
  assume a: "heightForks c = pre @ f # post \<and> block f \<noteq> None \<and> block f \<noteq> Some 0
        \<and> heightLoop zeroFork pre = None"
  then obtain lf' where "heightLoop zeroFork (pre @ f # post) = heightLoop lf' (f # post)"
    using heightLoop_append [of zeroFork pre "f # post"] by blast
  moreover have "heightLoop lf' (f # post) = Some errNonGenesisForkByHeight"
    using a by auto
  ultimately show "CheckConfigForkOrder c = Some errNonGenesisForkByHeight"
    using a by (simp add: CheckConfigForkOrder_def)
next
  assume a: "heightForks c2 = pre2 @ post2 \<and> heightLoop zeroFork pre2 = Some e"
  then have "heightLoop zeroFork (heightForks c2) = Some e"
    by (simp add: heightLoop_append_Some)
  then show "CheckConfigForkOrder c2 = Some e" by (simp add: CheckConfigForkOrder_def)
next
  assume "heightForks c2 = pre2 @ post2 \<and> heightLoop zeroFork pre2 = Some e"
    and "\<forall>g\<in>set pre2. block g = None \<or> block g = Some 0"
  then show "\<exists>a b. e = errNotEnabledButEnabled a b 0"
    using heightLoop_genesis_error [of zeroFork pre2 e] by (simp add: zeroFork_def)
next
  assume a: "heightLoop zeroFork (heightForks c') = None"
  then have eq: "CheckConfigForkOrder c' = timestampLoop zeroFork (timestampForks c')"
    by (simp add: CheckConfigForkOrder_def)
  show "CheckConfigForkOrder c' \<noteq> Some errNonGenesisForkByHeight"
    unfolding eq by (rule timestampLoop_not_sentinel)
  show "(CheckConfigForkOrder c' = None)
         = ((ApricotPhase2BlockTimestamp c' = None
              \<or> (ApricotPhase1BlockTimestamp c' \<noteq> None
                  \<and> the (ApricotPhase1BlockTimestamp c') \<le> the (ApricotPhase2BlockTimestamp c')))
            \<and> (ApricotPhase3BlockTimestamp c' = None
              \<or> (ApricotPhase2BlockTimestamp c' \<noteq> None
                  \<and> the (ApricotPhase2BlockTimestamp c') \<le> the (ApricotPhase3BlockTimestamp c')))
            \<and> (ApricotPhase4BlockTimestamp c' = None
              \<or> (ApricotPhase3BlockTimestamp c' \<noteq> None
                  \<and> the (ApricotPhase3BlockTimestamp c')
                      \<le> the (ApricotPhase4BlockTimestamp c'))))"
    unfolding eq by (rule timestamps_accepted_iff)
next
  assume "heightLoop zeroFork (heightForks c') = None \<and> t1 \<le> t2 \<and> t2 \<le> t3 \<and> t3 \<le> t4"
  then show "CheckConfigForkOrder (c'\<lparr>ApricotPhase1BlockTimestamp := Some t1,
          ApricotPhase2BlockTimestamp := Some t2, ApricotPhase3BlockTimestamp := Some t3,
          ApricotPhase4BlockTimestamp := Some t4\<rparr>) = None"
    by (simp add: CheckConfigForkOrder_def timestampForks_def zeroFork_def)
qed

theorem non_genesis_fork_rejected_witness:
  "(\<exists>f\<in>set (heightForks (TestChainConfig\<lparr>EIP155Block := Some 5\<rparr>)).
       block f \<noteq> None \<and> block f \<noteq> Some 0)
   \<and> CheckConfigForkOrder (TestChainConfig\<lparr>EIP155Block := Some 5\<rparr>) \<noteq> None
   \<and> (heightForks (TestChainConfig\<lparr>EIP155Block := Some 5\<rparr>)
        = take 3 (heightForks (TestChainConfig\<lparr>EIP155Block := Some 5\<rparr>))
          @ \<lparr>name = ''eip155Block'', block = Some 5, optional = False\<rparr>
          # drop 4 (heightForks (TestChainConfig\<lparr>EIP155Block := Some 5\<rparr>))
      \<and> block \<lparr>name = ''eip155Block'', block = Some 5, optional = False\<rparr> \<noteq> None
      \<and> block \<lparr>name = ''eip155Block'', block = Some 5, optional = False\<rparr> \<noteq> Some 0
      \<and> heightLoop zeroFork (take 3 (heightForks (TestChainConfig\<lparr>EIP155Block := Some 5\<rparr>)))
          = None)
   \<and> CheckConfigForkOrder (TestChainConfig\<lparr>EIP155Block := Some 5\<rparr>)
       = Some errNonGenesisForkByHeight
   \<and> (heightForks (TestChainConfig\<lparr>HomesteadBlock := None, EIP155Block := Some 5\<rparr>)
        = take 3 (heightForks (TestChainConfig\<lparr>HomesteadBlock := None, EIP155Block := Some 5\<rparr>))
          @ drop 3 (heightForks (TestChainConfig\<lparr>HomesteadBlock := None,
                                    EIP155Block := Some 5\<rparr>))
      \<and> heightLoop zeroFork
            (take 3 (heightForks (TestChainConfig\<lparr>HomesteadBlock := None,
                                     EIP155Block := Some 5\<rparr>)))
          = Some (errNotEnabledButEnabled ''homesteadBlock'' ''eip150Block'' 0))
   \<and> CheckConfigForkOrder (TestChainConfig\<lparr>HomesteadBlock := None, EIP155Block := Some 5\<rparr>)
       = Some (errNotEnabledButEnabled ''homesteadBlock'' ''eip150Block'' 0)
   \<and> map block (take 3 (heightForks (TestChainConfig\<lparr>HomesteadBlock := None,
                                            EIP155Block := Some 5\<rparr>)))
       = [None, None, Some 0]
   \<and> (\<exists>a b. errNotEnabledButEnabled ''homesteadBlock'' ''eip150Block'' 0
              = errNotEnabledButEnabled a b 0)
   \<and> (heightLoop zeroFork (heightForks TestApricotPhase1Config) = None
      \<and> (1::int) \<le> 2 \<and> (2::int) \<le> 3 \<and> (3::int) \<le> 4)
   \<and> CheckConfigForkOrder TestApricotPhase1Config \<noteq> Some errNonGenesisForkByHeight
   \<and> CheckConfigForkOrder TestApricotPhase1Config = None
   \<and> CheckConfigForkOrder (TestApricotPhase1Config\<lparr>ApricotPhase1BlockTimestamp := Some 1,
          ApricotPhase2BlockTimestamp := Some 2, ApricotPhase3BlockTimestamp := Some 3,
          ApricotPhase4BlockTimestamp := Some 4\<rparr>) = None"
proof -
  let ?c = "TestChainConfig\<lparr>EIP155Block := Some 5\<rparr>"
  let ?f = "\<lparr>name = ''eip155Block'', block = Some 5, optional = False\<rparr>"
  let ?c2 = "TestChainConfig\<lparr>HomesteadBlock := None, EIP155Block := Some 5\<rparr>"
  let ?e = "errNotEnabledButEnabled ''homesteadBlock'' ''eip150Block'' 0"
  have a: "\<exists>f\<in>set (heightForks ?c). block f \<noteq> None \<and> block f \<noteq> Some 0"
    by (simp add: heightForks_def)
  have b: "heightForks ?c = take 3 (heightForks ?c) @ ?f # drop 4 (heightForks ?c)
      \<and> block ?f \<noteq> None \<and> block ?f \<noteq> Some 0
      \<and> heightLoop zeroFork (take 3 (heightForks ?c)) = None"
    by (simp add: heightForks_def zeroFork_def TestChainConfig_def)
  have c: "heightForks ?c2 = take 3 (heightForks ?c2) @ drop 3 (heightForks ?c2)
      \<and> heightLoop zeroFork (take 3 (heightForks ?c2)) = Some ?e"
    by (simp add: heightForks_def zeroFork_def TestChainConfig_def)
  have d: "\<forall>g\<in>set (take 3 (heightForks ?c2)). block g = None \<or> block g = Some 0"
    by (simp add: heightForks_def TestChainConfig_def)
  have t: "heightLoop zeroFork (heightForks TestApricotPhase1Config) = None
      \<and> (1::int) \<le> 2 \<and> (2::int) \<le> 3 \<and> (3::int) \<le> 4"
    by (simp add: heightForks_def zeroFork_def TestApricotPhase1Config_def)
  have ts: "ApricotPhase2BlockTimestamp TestApricotPhase1Config = None"
    "ApricotPhase3BlockTimestamp TestApricotPhase1Config = None"
    "ApricotPhase4BlockTimestamp TestApricotPhase1Config = None"
    by (simp_all add: TestApricotPhase1Config_def)
  have m: "map block (take 3 (heightForks ?c2)) = [None, None, Some 0]"
    by (simp add: heightForks_def TestChainConfig_def)
  from m non_genesis_fork_rejected [of ?c "take 3 (heightForks ?c)" ?f "drop 4 (heightForks ?c)"
      ?c2 "take 3 (heightForks ?c2)" "drop 3 (heightForks ?c2)" ?e
      TestApricotPhase1Config 1 2 3 4] a b c d t ts
  show ?thesis by simp
qed

end
